theory Spec2Isabelle
  imports Main
begin

section \<open>Data model of the shared store\<close>

text \<open>
  The stage console (Stage.jsx) and the audience client (Audience.jsx) share four
  records of a realtime key-value store: \<open>director\<close>, \<open>session\<close>, \<open>world\<close> and the
  vote ledger \<open>votes/{roundId}/{entryId}\<close>. A field that is not stored reads as
  \<open>undefined\<close> in the source; here it is \<open>None\<close>. Numbers are the integers the code
  stores (millisecond timestamps, round ids, scores); strings that the code only ever
  compares against a closed set of literals are datatypes.
\<close>

datatype dmode = Normal | Freeze | Blackout

datatype sstate = Waiting | Active | Locked | Frozen

datatype reason = Auto | Manual

datatype outcome = Stable | Glitch | Override

datatype vkind = NormalVote | AbilityVote

datatype vrole = Observer | GlitchRole | Hacker

record director =
  mode :: "dmode option"
  autoRun :: "bool option"

record session =
  state :: "sstate option"
  roundId :: "int option"
  endsAt :: "int option"
  nextStartsAt :: "int option"
  controllerId :: "string option"
  startedBy :: "reason option"
  updatedAt :: "int option"

record scores =
  stable :: int
  glitch :: int
  override :: int

record world =
  stability :: int
  dominant :: outcome
  w_updatedAt :: int
  w_roundId :: int
  lastDelta :: "int option"
  lastScores :: "scores option"

text \<open>
  A ledger entry as the aggregator reads it: \<open>data[k]?.type\<close> and \<open>data[k]?.power\<close>
  may be anything the store holds, also nothing at all.
\<close>

record vote =
  vtype :: "string option"
  vpower :: "int option"
  kind :: vkind
  role :: vrole
  deviceId :: string
  ts :: int

text \<open>Every write the code issues to the store, in the order it is issued.\<close>

datatype store_write =
    SetWorld world
  | SetDirector director
  | UpdateDirector director
  | SetSession session
  | UpdateSession session
  | RemoveVotes int
  | RemoveAllVotes
  | PushVote int vote

record store =
  director :: director
  session :: session
  world :: "world option"
  votes :: "int \<Rightarrow> vote list"
  writes :: "store_write list"

section \<open>Constants and helpers of Stage.jsx\<close>

definition ACTIVE_SECONDS :: int where "ACTIVE_SECONDS = 20"
definition LOCKED_SECONDS :: int where "LOCKED_SECONDS = 6"
definition WAIT_SECONDS :: int where "WAIT_SECONDS = 8"
definition COOLDOWN_MS :: int where "COOLDOWN_MS = 2000"

text \<open>\<open>clamp = (n, min, max) => Math.max(min, Math.min(max, n))\<close>\<close>

definition clamp :: "int \<Rightarrow> int \<Rightarrow> int \<Rightarrow> int" where
  "clamp n lo hi = max lo (min hi n)"

text \<open>JavaScript's \<open>x || d\<close> on an optional number: \<open>undefined\<close> and \<open>0\<close> are falsy.\<close>

fun num_or :: "int option \<Rightarrow> int \<Rightarrow> int" where
  "num_or None d = d"
| "num_or (Some n) d = (if n = 0 then d else n)"

text \<open>\<open>snap.exists() ? snap.val() : ""\<close> and the truthiness of the string read.\<close>

fun str_or_empty :: "string option \<Rightarrow> string" where
  "str_or_empty None = []"
| "str_or_empty (Some s) = s"

section \<open>Vote aggregator\<close>

text \<open>
  \<open>dominantFromScores\<close>: \<open>max = Math.max(stable, glitch, override)\<close>, then glitch is
  tested first, override second, stable is what is left.
\<close>

definition dominantFromScores :: "scores \<Rightarrow> outcome" where
  "dominantFromScores sc =
     (let m = max (stable sc) (max (glitch sc) (override sc)) in
      if glitch sc = m then Glitch
      else if override sc = m then Override
      else Stable)"

text \<open>\<open>calcDelta\<close>: \<open>stable * 1 + glitch * -2 + override * -3\<close>\<close>

definition calcDelta :: "scores \<Rightarrow> int" where
  "calcDelta sc = stable sc * 1 + glitch sc * (- 2) + override sc * (- 3)"

text \<open>
  One pass of the loop body \<open>for (const k in data)\<close>: \<open>power = Number(data[k]?.power || 1)\<close>,
  then three independent tests of \<open>type\<close> against the three literals.
\<close>

definition tally_step :: "vote \<Rightarrow> scores \<Rightarrow> scores" where
  "tally_step v sc =
     (let p = num_or (vpower v) 1;
          s1 = (if vtype v = Some ''stable'' then sc\<lparr>stable := stable sc + p\<rparr> else sc);
          s2 = (if vtype v = Some ''glitch'' then s1\<lparr>glitch := glitch s1 + p\<rparr> else s1);
          s3 = (if vtype v = Some ''override'' then s2\<lparr>override := override s2 + p\<rparr> else s2)
      in s3)"

fun tally_loop :: "vote list \<Rightarrow> scores \<Rightarrow> scores" where
  "tally_loop [] sc = sc"
| "tally_loop (v # vs) sc = tally_loop vs (tally_step v sc)"

definition tally :: "vote list \<Rightarrow> scores" where
  "tally vs = tally_loop vs \<lparr>stable = 0, glitch = 0, override = 0\<rparr>"

text \<open>
  The votes listener of the live view (lines 105-130) runs the same loop and keeps the
  scores with their total.
\<close>

definition votesListener :: "vote list \<Rightarrow> scores \<times> int" where
  "votesListener vs =
     (let sc = tally vs in (sc, stable sc + glitch sc + override sc))"

section \<open>Store primitives\<close>

text \<open>
  \<open>set\<close> replaces a record, \<open>update\<close> overwrites the fields it is given and keeps the
  others, \<open>remove\<close> deletes a subtree, \<open>push\<close> appends an entry under a fresh key.
\<close>

fun orElse :: "'a option \<Rightarrow> 'a option \<Rightarrow> 'a option" where
  "orElse (Some x) _ = Some x"
| "orElse None y = y"

definition merge_session :: "session \<Rightarrow> session \<Rightarrow> session" where
  "merge_session p s =
     \<lparr>state = orElse (state p) (state s),
      roundId = orElse (roundId p) (roundId s),
      endsAt = orElse (endsAt p) (endsAt s),
      nextStartsAt = orElse (nextStartsAt p) (nextStartsAt s),
      controllerId = orElse (controllerId p) (controllerId s),
      startedBy = orElse (startedBy p) (startedBy s),
      updatedAt = orElse (updatedAt p) (updatedAt s)\<rparr>"

definition merge_director :: "director \<Rightarrow> director \<Rightarrow> director" where
  "merge_director p d =
     \<lparr>mode = orElse (mode p) (mode d), autoRun = orElse (autoRun p) (autoRun d)\<rparr>"

definition no_session :: session where
  "no_session = \<lparr>state = None, roundId = None, endsAt = None, nextStartsAt = None,
                 controllerId = None, startedBy = None, updatedAt = None\<rparr>"

definition db_set_world :: "world \<Rightarrow> store \<Rightarrow> store" where
  "db_set_world w db = db\<lparr>world := Some w, writes := writes db @ [SetWorld w]\<rparr>"

definition db_set_director :: "director \<Rightarrow> store \<Rightarrow> store" where
  "db_set_director d db = db\<lparr>director := d, writes := writes db @ [SetDirector d]\<rparr>"

definition db_update_director :: "director \<Rightarrow> store \<Rightarrow> store" where
  "db_update_director p db =
     db\<lparr>director := merge_director p (director db), writes := writes db @ [UpdateDirector p]\<rparr>"

definition db_set_session :: "session \<Rightarrow> store \<Rightarrow> store" where
  "db_set_session s db = db\<lparr>session := s, writes := writes db @ [SetSession s]\<rparr>"

definition db_update_session :: "session \<Rightarrow> store \<Rightarrow> store" where
  "db_update_session p db =
     db\<lparr>session := merge_session p (session db), writes := writes db @ [UpdateSession p]\<rparr>"

definition db_remove_votes :: "int \<Rightarrow> store \<Rightarrow> store" where
  "db_remove_votes r db = db\<lparr>votes := (votes db)(r := []), writes := writes db @ [RemoveVotes r]\<rparr>"

definition db_remove_all_votes :: "store \<Rightarrow> store" where
  "db_remove_all_votes db = db\<lparr>votes := (\<lambda>_. []), writes := writes db @ [RemoveAllVotes]\<rparr>"

definition db_push_vote :: "int \<Rightarrow> vote \<Rightarrow> store \<Rightarrow> store" where
  "db_push_vote r v db =
     db\<lparr>votes := (votes db)(r := votes db r @ [v]), writes := writes db @ [PushVote r v]\<rparr>"

section \<open>The stage console: local state\<close>

text \<open>
  A stage instance keeps its own id, the last session and director values its listeners
  delivered (React state, possibly behind the store) and the handles of its three timers.
  A pending lock or unlock timer is known by the round id its callback has captured, a
  pending auto-start timer by its delay.
\<close>

record dview =
  vmode :: dmode
  vautoRun :: bool

record timers =
  autoStart :: "int option"
  lock :: "int option"
  unlock :: "int option"

record stage =
  stageId :: string
  sessionV :: session
  directorV :: dview
  timersRef :: timers

text \<open>Session listener: \<open>snap.val() || {state: "waiting", roundId: 0, ...}\<close>\<close>

definition sessionListener :: "session \<Rightarrow> session" where
  "sessionListener s =
     (if s = no_session
      then \<lparr>state = Some Waiting, roundId = Some 0, endsAt = Some 0, nextStartsAt = Some 0,
            controllerId = Some [], startedBy = None, updatedAt = None\<rparr>
      else s)"

text \<open>Director listener: \<open>{mode: d.mode || "normal", autoRun: !!d.autoRun}\<close>, the defaults when absent.\<close>

definition directorListener :: "director \<Rightarrow> dview" where
  "directorListener d =
     \<lparr>vmode = (case mode d of Some m \<Rightarrow> m | None \<Rightarrow> Normal),
      vautoRun = (autoRun d = Some True)\<rparr>"

definition syncStage :: "store \<Rightarrow> stage \<Rightarrow> stage" where
  "syncStage db st =
     st\<lparr>sessionV := sessionListener (session db), directorV := directorListener (director db)\<rparr>"

definition clearTimers :: "stage \<Rightarrow> stage" where
  "clearTimers st = st\<lparr>timersRef := \<lparr>autoStart = None, lock = None, unlock = None\<rparr>\<rparr>"

text \<open>\<open>iAmController = session.controllerId === stageId || !session.controllerId\<close>\<close>

definition iAmController :: "stage \<Rightarrow> bool" where
  "iAmController st =
     (controllerId (sessionV st) = Some (stageId st) \<or> str_or_empty (controllerId (sessionV st)) = [])"

definition director_exists :: "director \<Rightarrow> bool" where
  "director_exists d = (mode d \<noteq> None \<or> autoRun d \<noteq> None)"

section \<open>The stage console: operations\<close>

text \<open>
  Each operation is the sequence of store reads and writes of the source function, run
  without interleaving; every \<open>Date.now()\<close> it reads is a parameter.
\<close>

definition controllerClaim :: "stage \<Rightarrow> store \<Rightarrow> store" where
  "controllerClaim st db =
     (let current = str_or_empty (controllerId (session db)) in
      if current = [] then db_update_session (no_session\<lparr>controllerId := Some (stageId st)\<rparr>) db
      else db)"

definition ensureWorldInit :: "int \<Rightarrow> store \<Rightarrow> store" where
  "ensureWorldInit t db =
     (let db1 = (if world db = None
                 then db_set_world \<lparr>stability = 70, dominant = Stable, w_updatedAt = t,
                                    w_roundId = 0, lastDelta = None, lastScores = None\<rparr> db
                 else db);
          db2 = (if \<not> director_exists (director db1)
                 then db_set_director \<lparr>mode = Some Normal, autoRun = Some False\<rparr> db1
                 else db1)
      in db2)"

text \<open>
  \<open>startRound\<close> up to the scheduling of the lock timer. The mode and the controller are
  read from the store, the current round from the instance's own session value.
\<close>

definition startRound :: "reason \<Rightarrow> stage \<Rightarrow> int \<Rightarrow> int \<Rightarrow> int \<Rightarrow> store \<Rightarrow> stage \<times> store" where
  "startRound rsn st t_init t_ends t_upd db =
     (let db1 = ensureWorldInit t_init db;
          m = (case mode (director db1) of Some x \<Rightarrow> x | None \<Rightarrow> Normal)
      in if m \<noteq> Normal then (st, db1)
         else
           let ctrl = str_or_empty (controllerId (session db1))
           in if ctrl \<noteq> [] \<and> ctrl \<noteq> stageId st then (st, db1)
              else
                let currentRound = num_or (roundId (sessionV st)) 0;
                    nextRound = currentRound + 1;
                    db2 = db_remove_votes nextRound db1;
                    db3 = db_set_session
                            \<lparr>state = Some Active, roundId = Some nextRound,
                             endsAt = Some (t_ends + ACTIVE_SECONDS * 1000),
                             nextStartsAt = Some 0, controllerId = Some (stageId st),
                             startedBy = Some rsn, updatedAt = Some t_upd\<rparr> db2
                in (st\<lparr>timersRef := (timersRef st)\<lparr>lock := Some nextRound\<rparr>\<rparr>, db3))"

text \<open>
  The lock-timer callback of \<open>startRound\<close>, for the round \<open>nextRound\<close> it has captured:
  read the round's ledger, aggregate, write World, write Session as locked, schedule the
  unlock timer.
\<close>

definition lockTimer :: "stage \<Rightarrow> int \<Rightarrow> int \<Rightarrow> int \<Rightarrow> int \<Rightarrow> store \<Rightarrow> stage \<times> store" where
  "lockTimer st nextRound t_world t_locked t_upd db =
     (let sc = tally (votes db nextRound);
          dom = dominantFromScores sc;
          delta = calcDelta sc;
          current = (case world db of Some w \<Rightarrow> stability w | None \<Rightarrow> 70);
          nextStability = clamp (current + delta) 0 100;
          db1 = db_set_world \<lparr>stability = nextStability, dominant = dom, w_updatedAt = t_world,
                               w_roundId = nextRound, lastDelta = Some delta,
                               lastScores = Some sc\<rparr> db;
          lockedEnds = t_locked + LOCKED_SECONDS * 1000;
          db2 = db_set_session
                  \<lparr>state = Some Locked, roundId = Some nextRound, endsAt = Some lockedEnds,
                   nextStartsAt = Some 0, controllerId = Some (stageId st),
                   startedBy = None, updatedAt = Some t_upd\<rparr> db1
      in (st\<lparr>timersRef := (timersRef st)\<lparr>unlock := Some nextRound\<rparr>\<rparr>, db2))"

definition unlockTimer :: "stage \<Rightarrow> int \<Rightarrow> int \<Rightarrow> store \<Rightarrow> store" where
  "unlockTimer st nextRound t_upd db =
     db_set_session
       \<lparr>state = Some Waiting, roundId = Some nextRound, endsAt = Some 0,
        nextStartsAt = Some 0, controllerId = Some (stageId st),
        startedBy = None, updatedAt = Some t_upd\<rparr> db"

text \<open>
  The auto-run scheduler effect. It reads the instance's own director and session values;
  \<open>t_chk\<close>, \<open>t_new\<close> and \<open>t_delay\<close> are its three clock reads.
\<close>

definition autoRunEffect :: "stage \<Rightarrow> int \<Rightarrow> int \<Rightarrow> int \<Rightarrow> store \<Rightarrow> stage \<times> store" where
  "autoRunEffect st0 t_chk t_new t_delay db =
     (let st = clearTimers st0 in
      if \<not> vautoRun (directorV st) then (st, db)
      else if vmode (directorV st) \<noteq> Normal then (st, db)
      else if \<not> iAmController st then (st, db)
      else if state (sessionV st) \<noteq> Some Waiting then (st, db)
      else
        let stored = num_or (nextStartsAt (sessionV st)) 0;
            needNew = (stored = 0 \<or> stored \<le> t_chk);
            nsa = (if needNew then t_new + WAIT_SECONDS * 1000 else stored);
            db1 = (if needNew
                   then db_update_session (no_session\<lparr>nextStartsAt := Some nsa, endsAt := Some 0\<rparr>) db
                   else db);
            delay = max 0 (nsa - t_delay)
        in (st\<lparr>timersRef := (timersRef st)\<lparr>autoStart := Some delay\<rparr>\<rparr>, db1))"

definition setAutoRun :: "bool \<Rightarrow> stage \<Rightarrow> int \<Rightarrow> store \<Rightarrow> stage \<times> store" where
  "setAutoRun v st t_init db =
     (let db1 = ensureWorldInit t_init db;
          db2 = db_update_director \<lparr>mode = None, autoRun = Some v\<rparr> db1;
          db3 = (if v then db_update_session (no_session\<lparr>state := Some Waiting\<rparr>) db2 else db2)
      in (st, db3))"

definition freeze_with :: "dmode \<Rightarrow> stage \<Rightarrow> int \<Rightarrow> int \<Rightarrow> store \<Rightarrow> stage \<times> store" where
  "freeze_with m st0 t_init t_upd db =
     (let db1 = ensureWorldInit t_init db;
          st = clearTimers st0;
          db2 = db_set_director \<lparr>mode = Some m, autoRun = Some (vautoRun (directorV st))\<rparr> db1;
          db3 = db_update_session
                  (no_session\<lparr>state := Some Frozen, endsAt := Some 0, nextStartsAt := Some 0,
                              controllerId := Some (stageId st), updatedAt := Some t_upd\<rparr>) db2
      in (st, db3))"

text \<open>\<open>freeze\<close> and \<open>blackout\<close> are the same body with the mode they write.\<close>

definition freeze :: "stage \<Rightarrow> int \<Rightarrow> int \<Rightarrow> store \<Rightarrow> stage \<times> store" where
  "freeze = freeze_with Freeze"

definition blackout :: "stage \<Rightarrow> int \<Rightarrow> int \<Rightarrow> store \<Rightarrow> stage \<times> store" where
  "blackout = freeze_with Blackout"

definition resume :: "stage \<Rightarrow> int \<Rightarrow> int \<Rightarrow> store \<Rightarrow> stage \<times> store" where
  "resume st t_init t_upd db =
     (let db1 = ensureWorldInit t_init db;
          db2 = db_set_director \<lparr>mode = Some Normal, autoRun = Some (vautoRun (directorV st))\<rparr> db1;
          db3 = db_update_session
                  (no_session\<lparr>state := Some Waiting, endsAt := Some 0, nextStartsAt := Some 0,
                              controllerId := Some (stageId st), updatedAt := Some t_upd\<rparr>) db2
      in (st, db3))"

definition restart :: "stage \<Rightarrow> int \<Rightarrow> int \<Rightarrow> store \<Rightarrow> stage \<times> store" where
  "restart st0 t_world t_upd db =
     (let st = clearTimers st0;
          db1 = db_remove_all_votes db;
          db2 = db_set_world \<lparr>stability = 70, dominant = Stable, w_updatedAt = t_world,
                               w_roundId = 0, lastDelta = None, lastScores = None\<rparr> db1;
          db3 = db_set_director \<lparr>mode = Some Normal, autoRun = Some (vautoRun (directorV st))\<rparr> db2;
          db4 = db_set_session
                  \<lparr>state = Some Waiting, roundId = Some 0, endsAt = Some 0,
                   nextStartsAt = Some 0, controllerId = Some (stageId st),
                   startedBy = None, updatedAt = Some t_upd\<rparr> db3
      in (st, db4))"

definition resetCurrentVotes :: "stage \<Rightarrow> store \<Rightarrow> store" where
  "resetCurrentVotes st db =
     (let r = num_or (roundId (sessionV st)) 0 in
      if r = 0 then db else db_remove_votes r db)"

text \<open>
  The operations of the operator console together with the two effects that run on their
  own (controller claim, auto-run scheduler), as one step function.
\<close>

datatype action =
    StartRound reason
  | SetAutoRun bool
  | DoFreeze
  | DoBlackout
  | DoResume
  | DoRestart
  | ResetCurrentVotes
  | AutoRunEffect
  | ControllerClaim

fun run_action :: "action \<Rightarrow> stage \<Rightarrow> int \<times> int \<times> int \<Rightarrow> store \<Rightarrow> stage \<times> store" where
  "run_action (StartRound rsn) st (t1, t2, t3) db = startRound rsn st t1 t2 t3 db"
| "run_action (SetAutoRun v) st (t1, t2, t3) db = setAutoRun v st t1 db"
| "run_action DoFreeze st (t1, t2, t3) db = freeze st t1 t2 db"
| "run_action DoBlackout st (t1, t2, t3) db = blackout st t1 t2 db"
| "run_action DoResume st (t1, t2, t3) db = resume st t1 t2 db"
| "run_action DoRestart st (t1, t2, t3) db = restart st t1 t2 db"
| "run_action ResetCurrentVotes st (t1, t2, t3) db = (st, resetCurrentVotes st db)"
| "run_action AutoRunEffect st (t1, t2, t3) db = autoRunEffect st t1 t2 t3 db"
| "run_action ControllerClaim st (t1, t2, t3) db = (st, controllerClaim st db)"

section \<open>The audience client\<close>

text \<open>
  The device's local state: its id and role, the session and director values its listeners
  delivered, the ticker's \<open>now\<close>, and the three values it persists locally.
\<close>

record audience =
  a_deviceId :: string
  a_role :: vrole
  a_session :: session
  a_director :: dview
  now :: int
  lastActionTs :: int
  normalUsedRound :: int
  abilityUsedRound :: int

text \<open>\<open>Math.ceil(ms / 1000)\<close> on an integer number of milliseconds.\<close>

definition ceil_seconds :: "int \<Rightarrow> int" where
  "ceil_seconds ms = - ((- ms) div 1000)"

definition secondsLeft :: "audience \<Rightarrow> int" where
  "secondsLeft a = max 0 (ceil_seconds (num_or (endsAt (a_session a)) 0 - now a))"

definition cooldownLeft :: "audience \<Rightarrow> int" where
  "cooldownLeft a = max 0 (ceil_seconds (COOLDOWN_MS - (now a - lastActionTs a)))"

definition modeBlocksInput :: "audience \<Rightarrow> bool" where
  "modeBlocksInput a = (vmode (a_director a) \<noteq> Normal \<or> state (a_session a) = Some Frozen)"

definition isActive :: "audience \<Rightarrow> bool" where
  "isActive a =
     (\<not> modeBlocksInput a \<and> state (a_session a) = Some Active \<and>
      (case roundId (a_session a) of Some r \<Rightarrow> r > 0 | None \<Rightarrow> False) \<and>
      secondsLeft a > 0)"

definition normalAvailable :: "audience \<Rightarrow> bool" where
  "normalAvailable a =
     (isActive a \<and> roundId (a_session a) \<noteq> Some (normalUsedRound a) \<and> cooldownLeft a = 0)"

definition abilityAvailable :: "audience \<Rightarrow> bool" where
  "abilityAvailable a =
     (isActive a \<and> roundId (a_session a) \<noteq> Some (abilityUsedRound a) \<and> cooldownLeft a = 0)"

text \<open>
  \<open>sendVote\<close>: four early returns, then the push under \<open>votes/{session.roundId}\<close> and the
  update of the local markers. \<open>isActive\<close> has checked that the round id is a positive
  number before it is used as the key.
\<close>

definition sendVote ::
  "string \<Rightarrow> int \<Rightarrow> vkind \<Rightarrow> audience \<Rightarrow> int \<Rightarrow> int \<Rightarrow> store \<Rightarrow> audience \<times> store" where
  "sendVote ty pw knd a t_push t_ts db =
     (if \<not> isActive a then (a, db)
      else if cooldownLeft a \<noteq> 0 then (a, db)
      else if knd = NormalVote \<and> roundId (a_session a) = Some (normalUsedRound a) then (a, db)
      else if knd = AbilityVote \<and> roundId (a_session a) = Some (abilityUsedRound a) then (a, db)
      else
        let r = num_or (roundId (a_session a)) 0;
            db1 = db_push_vote r
                    \<lparr>vtype = Some ty, vpower = Some pw, kind = knd, role = a_role a,
                     deviceId = a_deviceId a, ts = t_push\<rparr> db;
            a1 = a\<lparr>lastActionTs := t_ts\<rparr>;
            a2 = (if knd = NormalVote then a1\<lparr>normalUsedRound := r\<rparr>
                  else a1\<lparr>abilityUsedRound := r\<rparr>)
        in (a2, db1))"

definition voteNormal :: "string \<Rightarrow> audience \<Rightarrow> int \<Rightarrow> int \<Rightarrow> store \<Rightarrow> audience \<times> store" where
  "voteNormal ty = sendVote ty 1 NormalVote"

definition useAbility :: "audience \<Rightarrow> int \<Rightarrow> int \<Rightarrow> store \<Rightarrow> audience \<times> store" where
  "useAbility a =
     (if a_role a = Observer then sendVote ''stable'' 3 AbilityVote a
      else if a_role a = GlitchRole then sendVote ''glitch'' 3 AbilityVote a
      else sendVote ''override'' 3 AbilityVote a)"

section \<open>Notions used to state the properties\<close>

text \<open>
  The \<open>power\<close> an entry stores (nothing stored adds nothing), the sum of the stored
  powers of the entries of one type, and the sum over all entries of a round.
\<close>

definition entry_power :: "vote \<Rightarrow> int" where
  "entry_power v = (case vpower v of Some p \<Rightarrow> p | None \<Rightarrow> 0)"

definition type_power :: "string \<Rightarrow> vote list \<Rightarrow> int" where
  "type_power ty vs = sum_list (map entry_power (filter (\<lambda>v. vtype v = Some ty) vs))"

definition total_power :: "vote list \<Rightarrow> int" where
  "total_power vs = sum_list (map entry_power vs)"

definition known_type :: "vote \<Rightarrow> bool" where
  "known_type v =
     (vtype v = Some ''stable'' \<or> vtype v = Some ''glitch'' \<or> vtype v = Some ''override'')"

text \<open>
  An entry of the data model: its type is one of the three outcomes and it carries a
  power that is a number other than zero (the audience client writes 1 or 3).
\<close>

definition well_formed_entry :: "vote \<Rightarrow> bool" where
  "well_formed_entry v =
     (known_type v \<and> (case vpower v of Some p \<Rightarrow> p \<noteq> 0 | None \<Rightarrow> False))"

text \<open>The power an entry is counted with: 1 stands in for a missing or zero power.\<close>

definition counted_power :: "vote \<Rightarrow> int" where
  "counted_power v = (case vpower v of None \<Rightarrow> 1 | Some p \<Rightarrow> if p = 0 then 1 else p)"

definition counted_for :: "string \<Rightarrow> vote list \<Rightarrow> int" where
  "counted_for ty vs = sum_list (map counted_power (filter (\<lambda>v. vtype v = Some ty) vs))"

definition score_of :: "outcome \<Rightarrow> scores \<Rightarrow> int" where
  "score_of d sc =
     (case d of Stable \<Rightarrow> stable sc | Glitch \<Rightarrow> glitch sc | Override \<Rightarrow> override sc)"

text \<open>
  \<open>startRound\<close> is rejected when the store holds a director mode other than normal, or a
  controller id that is not empty and not the caller's.
\<close>

definition rejects_start :: "stage \<Rightarrow> store \<Rightarrow> bool" where
  "rejects_start st db =
     ((case mode (director db) of Some m \<Rightarrow> m \<noteq> Normal | None \<Rightarrow> False) \<or>
      (str_or_empty (controllerId (session db)) \<noteq> [] \<and>
       str_or_empty (controllerId (session db)) \<noteq> stageId st))"

fun is_session_write :: "store_write \<Rightarrow> bool" where
  "is_session_write (SetSession _) = True"
| "is_session_write (UpdateSession _) = True"
| "is_session_write _ = False"

text \<open>The round id \<open>startRound\<close> moves to: one more than the one the instance knows.\<close>

definition next_round :: "stage \<Rightarrow> int" where
  "next_round st = (case roundId (sessionV st) of Some r \<Rightarrow> r + 1 | None \<Rightarrow> 1)"

text \<open>
  A frozen session goes with a director mode of freeze or blackout: what \<open>freeze\<close> and
  \<open>blackout\<close> leave behind.
\<close>

definition frozen_under_overlay :: "store \<Rightarrow> bool" where
  "frozen_under_overlay db =
     (state (session db) \<noteq> Some Frozen \<or>
      mode (director db) = Some Freeze \<or> mode (director db) = Some Blackout)"

text \<open>
  The four guards of the auto-run scheduler, a stored start time later than the clock read,
  and the store after auto-run was turned on twice in a row.
\<close>

definition scheduler_active :: "stage \<Rightarrow> bool" where
  "scheduler_active st =
     (vautoRun (directorV st) \<and> vmode (directorV st) = Normal \<and> iAmController st \<and>
      state (sessionV st) = Some Waiting)"

definition starts_in_future :: "stage \<Rightarrow> int \<Rightarrow> bool" where
  "starts_in_future st t = (case nextStartsAt (sessionV st) of Some n \<Rightarrow> t < n | None \<Rightarrow> False)"

definition toggled_on_twice :: "stage \<Rightarrow> int \<Rightarrow> int \<Rightarrow> store \<Rightarrow> store" where
  "toggled_on_twice st u1 u2 db = snd (setAutoRun True st u2 (snd (setAutoRun True st u1 db)))"

text \<open>
  The conditions under which the audience client may write a vote of a kind, the local
  marker of the last round voted per kind, and the vote type an ability carries.
\<close>

fun used_round :: "vkind \<Rightarrow> audience \<Rightarrow> int" where
  "used_round NormalVote a = normalUsedRound a"
| "used_round AbilityVote a = abilityUsedRound a"

definition vote_allowed :: "vkind \<Rightarrow> audience \<Rightarrow> bool" where
  "vote_allowed knd a =
     (vmode (a_director a) = Normal \<and>
      state (a_session a) = Some Active \<and>
      (case roundId (a_session a) of Some r \<Rightarrow> 0 < r \<and> r \<noteq> used_round knd a | None \<Rightarrow> False) \<and>
      now a < (case endsAt (a_session a) of Some e \<Rightarrow> e | None \<Rightarrow> 0) \<and>
      2000 \<le> now a - lastActionTs a)"

definition mark_used :: "vkind \<Rightarrow> int \<Rightarrow> audience \<Rightarrow> audience" where
  "mark_used knd r a =
     (case knd of NormalVote \<Rightarrow> a\<lparr>normalUsedRound := r\<rparr> | AbilityVote \<Rightarrow> a\<lparr>abilityUsedRound := r\<rparr>)"

fun ability_type :: "vrole \<Rightarrow> string" where
  "ability_type Observer = ''stable''"
| "ability_type GlitchRole = ''glitch''"
| "ability_type Hacker = ''override''"

section \<open>Example states\<close>

definition example_stage :: stage where
  "example_stage =
     \<lparr>stageId = ''stage_a'',
      sessionV = \<lparr>state = Some Active, roundId = Some 1, endsAt = Some 20000, nextStartsAt = Some 0,
                  controllerId = Some ''stage_a'', startedBy = Some Manual, updatedAt = Some 0\<rparr>,
      directorV = \<lparr>vmode = Normal, vautoRun = False\<rparr>,
      timersRef = \<lparr>autoStart = None, lock = Some 1, unlock = None\<rparr>\<rparr>"

definition example_vote :: "string \<Rightarrow> int \<Rightarrow> vkind \<Rightarrow> vote" where
  "example_vote ty p k =
     \<lparr>vtype = Some ty, vpower = Some p, kind = k, role = Observer, deviceId = ''dev'', ts = 5\<rparr>"

text \<open>A store in the middle of round 1, with the given ledger for that round.\<close>

definition example_store :: "vote list \<Rightarrow> store" where
  "example_store vs =
     \<lparr>director = \<lparr>mode = Some Normal, autoRun = Some False\<rparr>,
      session = \<lparr>state = Some Active, roundId = Some 1, endsAt = Some 20000, nextStartsAt = Some 0,
                 controllerId = Some ''stage_a'', startedBy = Some Manual, updatedAt = Some 0\<rparr>,
      world = Some \<lparr>stability = 70, dominant = Stable, w_updatedAt = 0, w_roundId = 0,
                    lastDelta = None, lastScores = None\<rparr>,
      votes = (\<lambda>r. if r = 1 then vs else []),
      writes = []\<rparr>"

text \<open>Four normal votes for stable and two ability votes for override.\<close>

definition scenario_votes :: "vote list" where
  "scenario_votes =
     replicate 4 (example_vote ''stable'' 1 NormalVote) @
     replicate 2 (example_vote ''override'' 3 AbilityVote)"

text \<open>A store frozen during round 2, and a store waiting for an auto-start at 30000.\<close>

definition frozen_store :: store where
  "frozen_store =
     \<lparr>director = \<lparr>mode = Some Freeze, autoRun = Some True\<rparr>,
      session = \<lparr>state = Some Frozen, roundId = Some 2, endsAt = Some 0, nextStartsAt = Some 0,
                 controllerId = Some ''stage_a'', startedBy = Some Auto, updatedAt = Some 900\<rparr>,
      world = Some \<lparr>stability = 56, dominant = Override, w_updatedAt = 800, w_roundId = 2,
                    lastDelta = Some (- 14),
                    lastScores = Some \<lparr>stable = 4, glitch = 0, override = 6\<rparr>\<rparr>,
      votes = (\<lambda>r. if r = 2 then scenario_votes else []),
      writes = []\<rparr>"

definition waiting_store :: store where
  "waiting_store =
     \<lparr>director = \<lparr>mode = Some Normal, autoRun = Some True\<rparr>,
      session = \<lparr>state = Some Waiting, roundId = Some 2, endsAt = Some 0, nextStartsAt = Some 30000,
                 controllerId = Some ''stage_a'', startedBy = None, updatedAt = Some 900\<rparr>,
      world = Some \<lparr>stability = 56, dominant = Override, w_updatedAt = 800, w_roundId = 2,
                    lastDelta = Some (- 14),
                    lastScores = Some \<lparr>stable = 4, glitch = 0, override = 6\<rparr>\<rparr>,
      votes = (\<lambda>r. if r = 3 then [example_vote ''glitch'' 1 NormalVote] else []),
      writes = []\<rparr>"

text \<open>A device in round 3, three seconds after which it may vote again.\<close>

definition example_audience :: audience where
  "example_audience =
     \<lparr>a_deviceId = ''dev_7'', a_role = Hacker,
      a_session = \<lparr>state = Some Active, roundId = Some 3, endsAt = Some 20000, nextStartsAt = Some 0,
                   controllerId = Some ''stage_a'', startedBy = Some Manual, updatedAt = Some 0\<rparr>,
      a_director = \<lparr>vmode = Normal, vautoRun = False\<rparr>,
      now = 5000, lastActionTs = 0, normalUsedRound = 2, abilityUsedRound = 2\<rparr>"

definition round3_store :: store where
  "round3_store =
     \<lparr>director = \<lparr>mode = Some Normal, autoRun = Some False\<rparr>,
      session = \<lparr>state = Some Active, roundId = Some 3, endsAt = Some 20000, nextStartsAt = Some 0,
                 controllerId = Some ''stage_a'', startedBy = Some Manual, updatedAt = Some 0\<rparr>,
      world = Some \<lparr>stability = 70, dominant = Stable, w_updatedAt = 0, w_roundId = 0,
                    lastDelta = None, lastScores = None\<rparr>,
      votes = (\<lambda>r. []),
      writes = []\<rparr>"

text \<open>
  The ledger an aggregation is compared with: entries of unknown type dropped, a missing
  or zero power replaced by 1.
\<close>

definition default_power :: "vote \<Rightarrow> vote" where
  "default_power v = (if vpower v = None \<or> vpower v = Some 0 then v\<lparr>vpower := Some 1\<rparr> else v)"

definition cleaned :: "vote list \<Rightarrow> vote list" where
  "cleaned vs = map default_power (filter known_type vs)"

definition with_ledger :: "int \<Rightarrow> vote list \<Rightarrow> store \<Rightarrow> store" where
  "with_ledger r vs db = db\<lparr>votes := (votes db)(r := vs)\<rparr>"

text \<open>A ledger with a missing power, a zero power, an unknown type and a missing type.\<close>

definition malformed_votes :: "vote list" where
  "malformed_votes =
     [\<lparr>vtype = Some ''stable'', vpower = None, kind = NormalVote, role = Observer, deviceId = ''d1'', ts = 1\<rparr>,
      \<lparr>vtype = Some ''glitch'', vpower = Some 0, kind = NormalVote, role = Observer, deviceId = ''d2'', ts = 2\<rparr>,
      \<lparr>vtype = Some ''chaos'', vpower = Some 3, kind = AbilityVote, role = Hacker, deviceId = ''d3'', ts = 3\<rparr>,
      \<lparr>vtype = None, vpower = Some 1, kind = NormalVote, role = Observer, deviceId = ''d4'', ts = 4\<rparr>]"

section \<open>The vote aggregator\<close>

lemma tally_step_stable:
  "stable (tally_step v sc) = stable sc + (if vtype v = Some ''stable'' then num_or (vpower v) 1 else 0)"
  by (simp add: tally_step_def Let_def)

lemma tally_step_glitch:
  "glitch (tally_step v sc) = glitch sc + (if vtype v = Some ''glitch'' then num_or (vpower v) 1 else 0)"
  by (simp add: tally_step_def Let_def)

lemma tally_step_override:
  "override (tally_step v sc) = override sc + (if vtype v = Some ''override'' then num_or (vpower v) 1 else 0)"
  by (simp add: tally_step_def Let_def)

lemma num_or_counted: "num_or (vpower v) 1 = counted_power v"
  by (cases "vpower v") (simp_all add: counted_power_def)

lemma tally_loop_stable:
  "stable (tally_loop vs sc) = stable sc + counted_for ''stable'' vs"
  by (induction vs arbitrary: sc) (simp_all add: tally_step_stable counted_for_def num_or_counted)

lemma tally_loop_glitch:
  "glitch (tally_loop vs sc) = glitch sc + counted_for ''glitch'' vs"
  by (induction vs arbitrary: sc) (simp_all add: tally_step_glitch counted_for_def num_or_counted)

lemma tally_loop_override:
  "override (tally_loop vs sc) = override sc + counted_for ''override'' vs"
  by (induction vs arbitrary: sc) (simp_all add: tally_step_override counted_for_def num_or_counted)

lemma tally_scores:
  "stable (tally vs) = counted_for ''stable'' vs"
  "glitch (tally vs) = counted_for ''glitch'' vs"
  "override (tally vs) = counted_for ''override'' vs"
  by (simp_all add: tally_def tally_loop_stable tally_loop_glitch tally_loop_override)

lemma counted_wf: "well_formed_entry v \<Longrightarrow> counted_power v = entry_power v"
  by (auto simp: well_formed_entry_def counted_power_def entry_power_def split: option.splits)

lemma counted_for_wf:
  "\<forall>v\<in>set vs. well_formed_entry v \<Longrightarrow> counted_for ty vs = type_power ty vs"
  by (induction vs) (simp_all add: counted_for_def type_power_def counted_wf)

lemma type_power_total:
  "\<forall>v\<in>set vs. known_type v \<Longrightarrow>
   type_power ''stable'' vs + type_power ''glitch'' vs + type_power ''override'' vs = total_power vs"
  by (induction vs) (auto simp: type_power_def total_power_def known_type_def)

lemma world_lockTimer:
  "world (snd (lockTimer st r t1 t2 t3 db)) =
     Some \<lparr>stability = clamp ((case world db of Some w \<Rightarrow> stability w | None \<Rightarrow> 70) + calcDelta (tally (votes db r))) 0 100,
           dominant = dominantFromScores (tally (votes db r)), w_updatedAt = t1, w_roundId = r,
           lastDelta = Some (calcDelta (tally (votes db r))), lastScores = Some (tally (votes db r))\<rparr>"
  by (simp add: lockTimer_def Let_def db_set_world_def db_set_session_def)

lemma clamp_cases: "clamp n 0 100 = (if n < 0 then 0 else if n > 100 then 100 else n)"
  by (simp add: clamp_def)

text \<open>
  Claim C1. When the lock timer fires for round \<open>r\<close> and every entry of the round's ledger
  is an entry of the data model, the scores written to \<open>lastScores\<close> are the per-type sums
  of the stored powers, they add up to the sum of the powers of all entries of the round,
  \<open>lastDelta\<close> is \<open>stable * 1 + glitch * (-2) + override * (-3)\<close>, and the stability
  written is the stability read (70 when the store has none) plus that delta, cut off
  at 0 and at 100.
\<close>

theorem aggregator_world_update:
  assumes "\<forall>v\<in>set (votes db r). well_formed_entry v"
  shows "let vs = votes db r; sc = tally vs;
             delta = stable sc * 1 + glitch sc * (- 2) + override sc * (- 3);
             cur = (case world db of Some w \<Rightarrow> stability w | None \<Rightarrow> 70)
         in stable sc = type_power ''stable'' vs \<and>
            glitch sc = type_power ''glitch'' vs \<and>
            override sc = type_power ''override'' vs \<and>
            stable sc + glitch sc + override sc = total_power vs \<and>
            world (snd (lockTimer st r t1 t2 t3 db)) =
              Some \<lparr>stability = (if cur + delta < 0 then 0 else if cur + delta > 100 then 100 else cur + delta),
                    dominant = dominantFromScores sc, w_updatedAt = t1, w_roundId = r,
                    lastDelta = Some delta, lastScores = Some sc\<rparr>"
proof -
  let ?vs = "votes db r"
  have known: "\<forall>v\<in>set ?vs. known_type v"
    using assms by (simp add: well_formed_entry_def)
  have s: "stable (tally ?vs) = type_power ''stable'' ?vs"
    and g: "glitch (tally ?vs) = type_power ''glitch'' ?vs"
    and ov: "override (tally ?vs) = type_power ''override'' ?vs"
    using assms by (simp_all add: tally_scores counted_for_wf)
  have tot: "stable (tally ?vs) + glitch (tally ?vs) + override (tally ?vs) = total_power ?vs"
    using type_power_total [OF known] by (simp add: s g ov)
  have w: "world (snd (lockTimer st r t1 t2 t3 db)) =
     Some \<lparr>stability = clamp ((case world db of Some w \<Rightarrow> stability w | None \<Rightarrow> 70) + calcDelta (tally ?vs)) 0 100,
           dominant = dominantFromScores (tally ?vs), w_updatedAt = t1, w_roundId = r,
           lastDelta = Some (calcDelta (tally ?vs)), lastScores = Some (tally ?vs)\<rparr>"
    by (rule world_lockTimer)
  show ?thesis
    unfolding Let_def using s g ov tot w
    by (simp add: clamp_cases calcDelta_def)
qed

lemma scenario_tally: "tally scenario_votes = \<lparr>stable = 4, glitch = 0, override = 6\<rparr>"
  by (simp add: scenario_votes_def tally_def tally_step_def example_vote_def numeral_eq_Suc)

theorem aggregator_world_update_witness:
  "list_all well_formed_entry (votes (example_store scenario_votes) 1) \<and>
   total_power (votes (example_store scenario_votes) 1) = 10 \<and>
   world (snd (lockTimer example_stage 1 20000 20001 20002 (example_store scenario_votes))) =
     Some \<lparr>stability = 56, dominant = Override, w_updatedAt = 20000, w_roundId = 1,
           lastDelta = Some (- 14), lastScores = Some \<lparr>stable = 4, glitch = 0, override = 6\<rparr>\<rparr>"
proof -
  have h: "\<forall>v\<in>set (votes (example_store scenario_votes) 1). well_formed_entry v"
    by (auto simp: example_store_def scenario_votes_def example_vote_def well_formed_entry_def known_type_def)
  have v: "votes (example_store scenario_votes) 1 = scenario_votes"
    by (simp add: example_store_def)
  show ?thesis
    using h aggregator_world_update [OF h, of example_stage 20000 20001 20002]
    by (simp add: Let_def v scenario_tally dominantFromScores_def example_store_def list_all_iff)
qed

text \<open>
  Claim C2. The dominant outcome has the largest of the three scores; it is glitch exactly
  when glitch reaches the maximum, override exactly when glitch does not and override
  does, and stable otherwise. Scores 5/5/5 give glitch, stable 5 and override 5 with
  glitch 0 give override, stable 5 alone gives stable.
\<close>

theorem dominant_is_argmax_glitch_first:
  "score_of (dominantFromScores sc) sc = Max {stable sc, glitch sc, override sc} \<and>
   (dominantFromScores sc = Glitch) = (glitch sc = Max {stable sc, glitch sc, override sc}) \<and>
   (dominantFromScores sc = Override) =
      (glitch sc \<noteq> Max {stable sc, glitch sc, override sc} \<and>
       override sc = Max {stable sc, glitch sc, override sc}) \<and>
   (dominantFromScores sc = Stable) =
      (glitch sc \<noteq> Max {stable sc, glitch sc, override sc} \<and>
       override sc \<noteq> Max {stable sc, glitch sc, override sc}) \<and>
   dominantFromScores \<lparr>stable = 5, glitch = 5, override = 5\<rparr> = Glitch \<and>
   dominantFromScores \<lparr>stable = 5, glitch = 0, override = 5\<rparr> = Override \<and>
   dominantFromScores \<lparr>stable = 5, glitch = 0, override = 0\<rparr> = Stable"
  by (auto simp: dominantFromScores_def score_of_def Let_def)

lemma counted_default_power: "counted_power (default_power v) = counted_power v"
  by (auto simp: default_power_def counted_power_def split: option.splits)

lemma vtype_default_power: "vtype (default_power v) = vtype v"
  by (simp add: default_power_def)

lemma counted_for_cleaned:
  "ty \<in> {''stable'', ''glitch'', ''override''} \<Longrightarrow> counted_for ty (cleaned vs) = counted_for ty vs"
  by (induction vs)
     (auto simp: counted_for_def cleaned_def counted_default_power vtype_default_power known_type_def)

lemma tally_eq_counted:
  "tally vs = \<lparr>stable = counted_for ''stable'' vs, glitch = counted_for ''glitch'' vs,
               override = counted_for ''override'' vs\<rparr>"
  by (simp add: tally_scores)

lemma tally_cleaned: "tally (cleaned vs) = tally vs"
  by (simp add: tally_eq_counted counted_for_cleaned)

lemma tally_step_default_power: "tally_step (default_power v) sc = tally_step v sc"
  by (cases "vpower v") (auto simp: tally_step_def default_power_def Let_def)

lemma tally_step_unknown: "\<not> known_type v \<Longrightarrow> tally_step v sc = sc"
  by (simp add: tally_step_def known_type_def Let_def)

text \<open>
  Claim C10. An entry whose power is missing or 0 is counted as the same entry with
  power 1, an entry whose type is none of stable, glitch, override changes no score, and
  the scores are defined for every ledger: both the live listener and the lock timer
  give the result they give on the ledger with the unknown types dropped and the
  missing or zero powers set to 1.
\<close>

theorem malformed_entries_tolerated:
  "tally_step v sc = tally_step (default_power v) sc \<and>
   tally_step v sc = (if known_type v then tally_step v sc else sc) \<and>
   stable (tally vs) = counted_for ''stable'' vs \<and>
   glitch (tally vs) = counted_for ''glitch'' vs \<and>
   override (tally vs) = counted_for ''override'' vs \<and>
   tally vs = tally (cleaned vs) \<and>
   votesListener vs = votesListener (cleaned vs) \<and>
   world (snd (lockTimer st r t1 t2 t3 db)) =
     world (snd (lockTimer st r t1 t2 t3 (with_ledger r (cleaned (votes db r)) db)))"
  by (simp add: tally_step_default_power tally_step_unknown tally_scores tally_cleaned
        votesListener_def world_lockTimer with_ledger_def)

lemma malformed_tally: "tally malformed_votes = \<lparr>stable = 1, glitch = 1, override = 0\<rparr>"
  by (simp add: tally_def tally_step_def malformed_votes_def)

theorem malformed_entries_tolerated_witness:
  "tally malformed_votes = \<lparr>stable = 1, glitch = 1, override = 0\<rparr> \<and>
   tally (cleaned malformed_votes) = \<lparr>stable = 1, glitch = 1, override = 0\<rparr> \<and>
   votesListener (cleaned malformed_votes) = (\<lparr>stable = 1, glitch = 1, override = 0\<rparr>, 2)"
proof -
  have t: "tally malformed_votes = tally (cleaned malformed_votes)"
    and l: "votesListener malformed_votes = votesListener (cleaned malformed_votes)"
    using malformed_entries_tolerated [of _ _ malformed_votes] by blast+
  have "votesListener malformed_votes = (\<lparr>stable = 1, glitch = 1, override = 0\<rparr>, 2)"
    by (simp add: votesListener_def malformed_tally)
  with t l show ?thesis by (simp add: malformed_tally)
qed

lemma tally_empty: "tally [] = \<lparr>stable = 0, glitch = 0, override = 0\<rparr>"
  by (simp add: tally_def)

text \<open>
  With an empty ledger for round 1 and a stored stability of 70, the World written has
  dominant glitch, not stable.
\<close>

theorem zero_votes_counterexample:
  "votes (example_store []) 1 = [] \<and>
   world (snd (lockTimer example_stage 1 20000 20001 20002 (example_store []))) =
     Some \<lparr>stability = 70, dominant = Glitch, w_updatedAt = 20000, w_roundId = 1,
           lastDelta = Some 0, lastScores = Some \<lparr>stable = 0, glitch = 0, override = 0\<rparr>\<rparr> \<and>
   map_option dominant (world (snd (lockTimer example_stage 1 20000 20001 20002 (example_store []))))
     \<noteq> Some Stable"
  by (simp add: world_lockTimer example_store_def tally_empty dominantFromScores_def
        calcDelta_def clamp_def)

text \<open>
  Claim C3, as the code has it. When the lock timer fires for a round with an empty
  ledger, World is still written: the delta is 0, the stability is the one read (70 when
  the store has none) cut off at 0 and at 100, all scores are 0, and the dominant outcome
  written is glitch, since the three equal scores tie and glitch is tested first.
\<close>

theorem zero_votes_world:
  assumes "votes db r = []"
  shows "world (snd (lockTimer st r t1 t2 t3 db)) =
     Some \<lparr>stability =
             (let cur = (case world db of Some w \<Rightarrow> stability w | None \<Rightarrow> 70)
              in if cur < 0 then 0 else if cur > 100 then 100 else cur),
           dominant = Glitch, w_updatedAt = t1, w_roundId = r,
           lastDelta = Some 0, lastScores = Some \<lparr>stable = 0, glitch = 0, override = 0\<rparr>\<rparr>"
  using assms
  by (simp add: world_lockTimer tally_empty dominantFromScores_def calcDelta_def clamp_def Let_def)

theorem zero_votes_world_witness:
  "world (snd (lockTimer example_stage 1 20000 20001 20002 (example_store []))) =
     Some \<lparr>stability = 70, dominant = Glitch, w_updatedAt = 20000, w_roundId = 1,
           lastDelta = Some 0, lastScores = Some \<lparr>stable = 0, glitch = 0, override = 0\<rparr>\<rparr>"
proof -
  have h: "votes (example_store []) 1 = []" by (simp add: example_store_def)
  show ?thesis
    using zero_votes_world [OF h, of example_stage 20000 20001 20002]
    by (simp add: example_store_def)
qed

section \<open>Starting a round\<close>

lemma session_ensureWorldInit: "session (ensureWorldInit t db) = session db"
  by (simp add: ensureWorldInit_def Let_def db_set_world_def db_set_director_def)

lemma votes_ensureWorldInit: "votes (ensureWorldInit t db) = votes db"
  by (simp add: ensureWorldInit_def Let_def db_set_world_def db_set_director_def)

lemma mode_ensureWorldInit:
  "mode (director (ensureWorldInit t db)) =
     (if director_exists (director db) then mode (director db) else Some Normal)"
  by (simp add: ensureWorldInit_def Let_def db_set_world_def db_set_director_def)

lemma session_writes_ensureWorldInit:
  "filter is_session_write (writes (ensureWorldInit t db)) = filter is_session_write (writes db)"
  by (simp add: ensureWorldInit_def Let_def db_set_world_def db_set_director_def)

lemma rejects_start_ensureWorldInit:
  "rejects_start st (ensureWorldInit t db) = rejects_start st db"
  by (auto simp: rejects_start_def session_ensureWorldInit mode_ensureWorldInit director_exists_def
           split: option.splits)

lemma startRound_rejected_eq:
  "rejects_start st db \<Longrightarrow> startRound rsn st t1 t2 t3 db = (st, ensureWorldInit t1 db)"
  unfolding rejects_start_ensureWorldInit [of st t1 db, symmetric]
  by (auto simp: startRound_def rejects_start_def Let_def split: option.splits)

text \<open>
  Claim C5. When the stored director mode is not normal, or the stored controller id is
  not empty and not the caller's, \<open>startRound\<close> leaves the Session record as it is and
  issues no write to it, and so does a second call made right after the first.
\<close>

theorem startRound_rejected_no_session_write:
  assumes "rejects_start st db"
  shows "session (snd (startRound rsn st t1 t2 t3 db)) = session db \<and>
         filter is_session_write (writes (snd (startRound rsn st t1 t2 t3 db))) =
           filter is_session_write (writes db) \<and>
         fst (startRound rsn st t1 t2 t3 db) = st \<and>
         session (snd (startRound rsn' st u1 u2 u3 (snd (startRound rsn st t1 t2 t3 db)))) = session db \<and>
         filter is_session_write
           (writes (snd (startRound rsn' st u1 u2 u3 (snd (startRound rsn st t1 t2 t3 db))))) =
           filter is_session_write (writes db)"
proof -
  have first: "startRound rsn st t1 t2 t3 db = (st, ensureWorldInit t1 db)"
    using assms by (rule startRound_rejected_eq)
  have "rejects_start st (ensureWorldInit t1 db)"
    using assms by (simp add: rejects_start_ensureWorldInit)
  then have second: "startRound rsn' st u1 u2 u3 (ensureWorldInit t1 db) =
      (st, ensureWorldInit u1 (ensureWorldInit t1 db))"
    by (rule startRound_rejected_eq)
  show ?thesis
    by (simp add: first second session_ensureWorldInit session_writes_ensureWorldInit)
qed

theorem startRound_rejected_no_session_write_witness:
  "rejects_start example_stage frozen_store \<and>
   session (snd (startRound Manual example_stage 1000 1001 1002
      (snd (startRound Manual example_stage 990 991 992 frozen_store)))) = session frozen_store \<and>
   state (session (snd (startRound Manual example_stage 990 991 992 frozen_store))) = Some Frozen"
proof -
  have h: "rejects_start example_stage frozen_store"
    by (simp add: rejects_start_def frozen_store_def)
  show ?thesis
    using h startRound_rejected_no_session_write [OF h, of Manual 990 991 992 Manual 1000 1001 1002]
    by (simp add: frozen_store_def)
qed

lemma num_or_zero_succ: "num_or x 0 + 1 = (case x of Some r \<Rightarrow> r + 1 | None \<Rightarrow> 1)"
  by (cases x) simp_all

text \<open>
  Claim C6. When the guards of \<open>startRound\<close> pass, the writes it issues after the
  initialisation are, in this order, the removal of the ledger of the next round id and
  the Session write with state active, that round id, \<open>endsAt\<close> 20000 ms after the clock
  read, \<open>nextStartsAt\<close> 0, the given reason and the caller as controller. The next round
  id is one more than the stored one when the instance is up to date with the store.
\<close>

theorem startRound_effects_in_order:
  assumes "\<not> rejects_start st db"
  shows "let n = next_round st;
             s = \<lparr>state = Some Active, roundId = Some n, endsAt = Some (tb + 20000),
                  nextStartsAt = Some 0, controllerId = Some (stageId st),
                  startedBy = Some rsn, updatedAt = Some tc\<rparr>;
             db' = snd (startRound rsn st ta tb tc db)
         in writes db' = writes (ensureWorldInit ta db) @ [RemoveVotes n, SetSession s] \<and>
            session db' = s \<and>
            votes db' = (votes db)(n := []) \<and>
            lock (timersRef (fst (startRound rsn st ta tb tc db))) = Some n \<and>
            next_round (syncStage db st) = (case roundId (session db) of Some r \<Rightarrow> r + 1 | None \<Rightarrow> 1)"
proof -
  have "\<not> rejects_start st (ensureWorldInit ta db)"
    using assms by (simp add: rejects_start_ensureWorldInit)
  then show ?thesis
    by (auto simp: startRound_def rejects_start_def Let_def next_round_def num_or_zero_succ
          db_remove_votes_def db_set_session_def ACTIVE_SECONDS_def votes_ensureWorldInit
          syncStage_def sessionListener_def no_session_def
          split: option.splits)
qed

theorem startRound_effects_in_order_witness:
  "writes (snd (startRound Auto example_stage 40000 40001 40002 waiting_store)) =
     [RemoveVotes 2,
      SetSession \<lparr>state = Some Active, roundId = Some 2, endsAt = Some 60001,
                  nextStartsAt = Some 0, controllerId = Some ''stage_a'',
                  startedBy = Some Auto, updatedAt = Some 40002\<rparr>]"
proof -
  have h: "\<not> rejects_start example_stage waiting_store"
    by (simp add: rejects_start_def waiting_store_def example_stage_def)
  have e: "ensureWorldInit 40000 waiting_store = waiting_store"
    by (simp add: ensureWorldInit_def waiting_store_def director_exists_def)
  show ?thesis
    using startRound_effects_in_order [OF h, where ta = 40000 and tb = 40001 and tc = 40002 and rsn = Auto]
    by (simp add: Let_def e next_round_def example_stage_def) (simp add: waiting_store_def)
qed

text \<open>
  Claim C7. Whatever the store held, after \<open>restart\<close> the session is waiting with round
  id 0 and the caller as controller, the world has stability 70 and dominant stable, the
  ledger of every round is empty, and the director is in mode normal with the auto-run
  flag the instance knew; for an instance up to date with the store that is the stored
  flag.
\<close>

theorem restart_resets_everything:
  "let s = \<lparr>state = Some Waiting, roundId = Some 0, endsAt = Some 0, nextStartsAt = Some 0,
              controllerId = Some (stageId st), startedBy = None, updatedAt = Some t2\<rparr>;
       w = \<lparr>stability = 70, dominant = Stable, w_updatedAt = t1, w_roundId = 0,
              lastDelta = None, lastScores = None\<rparr>;
       d = \<lparr>mode = Some Normal, autoRun = Some (vautoRun (directorV st))\<rparr>;
       db' = snd (restart st t1 t2 db)
   in session db' = s \<and> world db' = Some w \<and> votes db' = (\<lambda>r. []) \<and> director db' = d \<and>
      writes db' = writes db @ [RemoveAllVotes, SetWorld w, SetDirector d, SetSession s] \<and>
      timersRef (fst (restart st t1 t2 db)) = \<lparr>autoStart = None, lock = None, unlock = None\<rparr> \<and>
      autoRun (director (snd (restart (syncStage db st) t1 t2 db))) =
        Some (autoRun (director db) = Some True)"
  by (simp add: restart_def Let_def clearTimers_def db_remove_all_votes_def db_set_world_def
        db_set_director_def db_set_session_def syncStage_def directorListener_def)

section \<open>Leaving the frozen state\<close>

lemma state_merge_session: "state (merge_session p s) = orElse (state p) (state s)"
  by (simp add: merge_session_def)

lemma nextStartsAt_merge_session:
  "nextStartsAt (merge_session p s) = orElse (nextStartsAt p) (nextStartsAt s)"
  by (simp add: merge_session_def)

lemma session_setAutoRun:
  "session (snd (setAutoRun v st t db)) =
     (if v then merge_session (no_session\<lparr>state := Some Waiting\<rparr>) (session db) else session db)"
  by (simp add: setAutoRun_def Let_def db_update_director_def db_update_session_def
        session_ensureWorldInit)

lemma mode_setAutoRun:
  "mode (director db) = Some m \<Longrightarrow> mode (director (snd (setAutoRun v st t db))) = Some m"
  by (simp add: setAutoRun_def Let_def db_update_director_def db_update_session_def
        mode_ensureWorldInit director_exists_def merge_director_def)


lemma state_autoRunEffect:
  "state (session (snd (autoRunEffect st t1 t2 t3 db))) = state (session db)"
  by (simp add: autoRunEffect_def Let_def db_update_session_def state_merge_session no_session_def)

lemma state_controllerClaim: "state (session (controllerClaim st db)) = state (session db)"
  by (simp add: controllerClaim_def Let_def db_update_session_def state_merge_session no_session_def)

lemma session_resetCurrentVotes: "session (resetCurrentVotes st db) = session db"
  by (simp add: resetCurrentVotes_def Let_def db_remove_votes_def)

lemma resume_result:
  "state (session (snd (resume st t1 t2 db))) = Some Waiting \<and>
   mode (director (snd (resume st t1 t2 db))) = Some Normal"
  by (simp add: resume_def Let_def db_set_director_def db_update_session_def
        state_merge_session no_session_def)

lemma restart_result:
  "state (session (snd (restart st t1 t2 db))) = Some Waiting \<and>
   mode (director (snd (restart st t1 t2 db))) = Some Normal"
  by (simp add: restart_def Let_def db_set_director_def db_set_session_def db_set_world_def
        db_remove_all_votes_def)


lemma director_ensureWorldInit:
  "director_exists (director db) \<Longrightarrow> director (ensureWorldInit t db) = director db"
  by (simp add: ensureWorldInit_def Let_def db_set_world_def db_set_director_def)

lemma state_startRound:
  "state (session (snd (startRound rsn st t1 t2 t3 db))) =
     (if rejects_start st db then state (session db) else Some Active)"
proof (cases "rejects_start st db")
  case True
  then show ?thesis by (simp add: startRound_rejected_eq session_ensureWorldInit)
next
  case False
  then have "\<not> rejects_start st (ensureWorldInit t1 db)"
    by (simp add: rejects_start_ensureWorldInit)
  with False show ?thesis
    by (auto simp: startRound_def rejects_start_def Let_def db_set_session_def split: option.splits)
qed

lemma mode_startRound:
  "mode (director db) = Some m \<Longrightarrow> mode (director (snd (startRound rsn st t1 t2 t3 db))) = Some m"
  by (simp add: startRound_def Let_def db_set_session_def db_remove_votes_def
        mode_ensureWorldInit director_exists_def)

lemma mode_freeze_with: "mode (director (snd (freeze_with m st t1 t2 db))) = Some m"
  by (simp add: freeze_with_def Let_def db_set_director_def db_update_session_def)

lemma director_autoRunEffect: "director (snd (autoRunEffect st t1 t2 t3 db)) = director db"
  by (simp add: autoRunEffect_def Let_def db_update_session_def)

lemma director_controllerClaim: "director (controllerClaim st db) = director db"
  by (simp add: controllerClaim_def Let_def db_update_session_def)

lemma director_resetCurrentVotes: "director (resetCurrentVotes st db) = director db"
  by (simp add: resetCurrentVotes_def Let_def db_remove_votes_def)

text \<open>
  No operation produces a frozen session under a director mode other than freeze or
  blackout.
\<close>

lemma frozen_under_overlay_kept:
  assumes "frozen_under_overlay db"
  shows "frozen_under_overlay (snd (run_action a st clk db))"
proof -
  obtain t1 t2 t3 where clk: "clk = (t1, t2, t3)" by (cases clk) auto
  show ?thesis
  proof (cases a)
    case (StartRound rsn)
    then show ?thesis
      using assms
      by (auto simp: clk frozen_under_overlay_def state_startRound mode_startRound)
  next
    case (SetAutoRun v)
    then show ?thesis
      using assms
      by (auto simp: clk frozen_under_overlay_def session_setAutoRun mode_setAutoRun
            state_merge_session no_session_def)
  next
    case DoFreeze
    then show ?thesis by (simp add: clk frozen_under_overlay_def freeze_def mode_freeze_with)
  next
    case DoBlackout
    then show ?thesis by (simp add: clk frozen_under_overlay_def blackout_def mode_freeze_with)
  next
    case DoResume
    then show ?thesis by (simp add: clk frozen_under_overlay_def resume_result)
  next
    case DoRestart
    then show ?thesis by (simp add: clk frozen_under_overlay_def restart_result)
  next
    case ResetCurrentVotes
    then show ?thesis
      using assms
      by (simp add: clk frozen_under_overlay_def session_resetCurrentVotes director_resetCurrentVotes)
  next
    case AutoRunEffect
    then show ?thesis
      using assms
      by (simp add: clk frozen_under_overlay_def state_autoRunEffect director_autoRunEffect)
  next
    case ControllerClaim
    then show ?thesis
      using assms
      by (simp add: clk frozen_under_overlay_def state_controllerClaim director_controllerClaim)
  qed
qed




section \<open>The auto-run scheduler\<close>

lemma autoRunEffect_store:
  assumes "0 \<le> t_chk"
  shows "snd (autoRunEffect st t_chk t_new t_delay db) =
     (if scheduler_active st \<and> \<not> starts_in_future st t_chk
      then db_update_session (no_session\<lparr>nextStartsAt := Some (t_new + 8000), endsAt := Some 0\<rparr>) db
      else db)"
proof (cases "nextStartsAt (sessionV st)")
  case None
  then show ?thesis
    by (simp add: autoRunEffect_def scheduler_active_def starts_in_future_def Let_def
          clearTimers_def iAmController_def WAIT_SECONDS_def)
next
  case (Some n)
  then show ?thesis
    using assms
    by (auto simp: autoRunEffect_def scheduler_active_def starts_in_future_def Let_def
          clearTimers_def iAmController_def WAIT_SECONDS_def)
qed

lemma nextStartsAt_toggled:
  "nextStartsAt (session (toggled_on_twice st u1 u2 db)) = nextStartsAt (session db)"
  by (simp add: toggled_on_twice_def session_setAutoRun nextStartsAt_merge_session no_session_def)

lemma state_toggled: "state (session (toggled_on_twice st u1 u2 db)) = Some Waiting"
  by (simp add: toggled_on_twice_def session_setAutoRun state_merge_session no_session_def)

lemma future_after_sync:
  assumes "nextStartsAt (session db) = Some n" "t < n"
  shows "starts_in_future (syncStage db st) t"
proof -
  have "session db \<noteq> no_session"
    using assms(1) by (auto simp: no_session_def)
  then show ?thesis
    using assms by (simp add: starts_in_future_def syncStage_def sessionListener_def)
qed

text \<open>
  Claim C9. With a clock that is not negative, the scheduler effect writes nothing when
  the start time it knows is later than the clock read; it writes exactly when its four
  guards pass and the start time is missing, zero or not later than the clock read, and
  then it writes the clock read plus 8000 ms. Turning auto-run on twice keeps the stored
  start time, and the scheduler run after that leaves a future start time untouched.
\<close>

theorem autoRun_scheduler_keeps_future_start:
  assumes "0 \<le> t_chk"
  shows "(starts_in_future st t_chk \<longrightarrow> snd (autoRunEffect st t_chk t_new t_delay db) = db) \<and>
         snd (autoRunEffect st t_chk t_new t_delay db) =
           (if scheduler_active st \<and> \<not> starts_in_future st t_chk
            then db_update_session
                   (no_session\<lparr>nextStartsAt := Some (t_new + 8000), endsAt := Some 0\<rparr>) db
            else db) \<and>
         nextStartsAt (session (snd (autoRunEffect st t_chk t_new t_delay db))) =
           (if scheduler_active st \<and> \<not> starts_in_future st t_chk
            then Some (t_new + 8000) else nextStartsAt (session db)) \<and>
         nextStartsAt (session (toggled_on_twice st u1 u2 db)) = nextStartsAt (session db) \<and>
         (nextStartsAt (session db) = Some n \<and> t_chk < n \<longrightarrow>
            snd (autoRunEffect (syncStage (toggled_on_twice st u1 u2 db) st) t_chk t_new t_delay
                   (toggled_on_twice st u1 u2 db)) = toggled_on_twice st u1 u2 db \<and>
            state (session (toggled_on_twice st u1 u2 db)) = Some Waiting \<and>
            nextStartsAt (session (toggled_on_twice st u1 u2 db)) = Some n)"
proof -
  note eff = autoRunEffect_store [OF assms]
  have a: "starts_in_future st t_chk \<longrightarrow> snd (autoRunEffect st t_chk t_new t_delay db) = db"
    by (simp add: eff)
  have c: "nextStartsAt (session (snd (autoRunEffect st t_chk t_new t_delay db))) =
           (if scheduler_active st \<and> \<not> starts_in_future st t_chk
            then Some (t_new + 8000) else nextStartsAt (session db))"
    by (simp add: eff db_update_session_def nextStartsAt_merge_session)
  have d: "nextStartsAt (session db) = Some n \<and> t_chk < n \<longrightarrow>
            snd (autoRunEffect (syncStage (toggled_on_twice st u1 u2 db) st) t_chk t_new t_delay
                   (toggled_on_twice st u1 u2 db)) = toggled_on_twice st u1 u2 db"
  proof
    assume h: "nextStartsAt (session db) = Some n \<and> t_chk < n"
    then have "nextStartsAt (session (toggled_on_twice st u1 u2 db)) = Some n"
      by (simp add: nextStartsAt_toggled)
    with h have "starts_in_future (syncStage (toggled_on_twice st u1 u2 db) st) t_chk"
      by (simp add: future_after_sync)
    then show "snd (autoRunEffect (syncStage (toggled_on_twice st u1 u2 db) st) t_chk t_new t_delay
                   (toggled_on_twice st u1 u2 db)) = toggled_on_twice st u1 u2 db"
      by (simp add: eff)
  qed
  show ?thesis
    using a c d by (simp add: eff nextStartsAt_toggled state_toggled)
qed

theorem autoRun_scheduler_keeps_future_start_witness:
  "snd (autoRunEffect (syncStage (toggled_on_twice example_stage 25000 25100 waiting_store) example_stage)
          25200 25201 25202 (toggled_on_twice example_stage 25000 25100 waiting_store))
     = toggled_on_twice example_stage 25000 25100 waiting_store \<and>
   nextStartsAt (session (toggled_on_twice example_stage 25000 25100 waiting_store)) = Some 30000 \<and>
   nextStartsAt (session (snd (autoRunEffect (syncStage waiting_store example_stage)
          30000 30001 30002 waiting_store))) = Some 38001"
proof -
  have p: "(0::int) \<le> 25200" and q: "(0::int) \<le> 30000" by simp_all
  have n: "nextStartsAt (session waiting_store) = Some 30000 \<and> (25200::int) < 30000"
    by (simp add: waiting_store_def)
  have act: "scheduler_active (syncStage waiting_store example_stage) \<and>
             \<not> starts_in_future (syncStage waiting_store example_stage) 30000"
    by (simp add: scheduler_active_def starts_in_future_def syncStage_def sessionListener_def
          directorListener_def waiting_store_def no_session_def iAmController_def example_stage_def)
  have first:
    "snd (autoRunEffect (syncStage (toggled_on_twice example_stage 25000 25100 waiting_store) example_stage)
          25200 25201 25202 (toggled_on_twice example_stage 25000 25100 waiting_store))
       = toggled_on_twice example_stage 25000 25100 waiting_store \<and>
     nextStartsAt (session (toggled_on_twice example_stage 25000 25100 waiting_store)) = Some 30000"
    using n autoRun_scheduler_keeps_future_start
        [OF p, where st = example_stage and db = waiting_store and n = 30000 and ?u1.0 = 25000
           and ?u2.0 = 25100 and t_new = 25201 and t_delay = 25202]
    by blast
  have second:
    "nextStartsAt (session (snd (autoRunEffect (syncStage waiting_store example_stage)
          30000 30001 30002 waiting_store))) = Some 38001"
    using act autoRun_scheduler_keeps_future_start
        [OF q, where st = "syncStage waiting_store example_stage" and db = waiting_store
           and n = 30000 and ?u1.0 = 25000 and ?u2.0 = 25100 and t_new = 30001 and t_delay = 30002]
    by (simp add: db_update_session_def nextStartsAt_merge_session)
  show ?thesis
    using first second by simp
qed

section \<open>The audience client\<close>

lemma ceil_seconds_pos: "(0 < ceil_seconds ms) = (0 < ms)"
proof -
  have "((- ms) div 1000 < 0) = (- ms < 0)"
    by (rule pos_imp_zdiv_neg_iff) simp
  then show ?thesis
    by (simp add: ceil_seconds_def)
qed

lemma secondsLeft_pos:
  "(0 < secondsLeft a) = (now a < (case endsAt (a_session a) of Some e \<Rightarrow> e | None \<Rightarrow> 0))"
proof -
  have n: "num_or (endsAt (a_session a)) 0 = (case endsAt (a_session a) of Some e \<Rightarrow> e | None \<Rightarrow> 0)"
    by (cases "endsAt (a_session a)") simp_all
  have "(0 < secondsLeft a) = (0 < ceil_seconds (num_or (endsAt (a_session a)) 0 - now a))"
    by (simp add: secondsLeft_def less_max_iff_disj)
  then show ?thesis
    by (simp add: ceil_seconds_pos n)
qed

lemma cooldownLeft_zero: "(cooldownLeft a = 0) = (2000 \<le> now a - lastActionTs a)"
proof -
  have "(cooldownLeft a = 0) = (\<not> 0 < ceil_seconds (COOLDOWN_MS - (now a - lastActionTs a)))"
    by (simp add: cooldownLeft_def max_def)
  then show ?thesis
    by (simp add: ceil_seconds_pos COOLDOWN_MS_def) arith
qed

lemma isActive_eq:
  "isActive a =
     (vmode (a_director a) = Normal \<and> state (a_session a) = Some Active \<and>
      (case roundId (a_session a) of Some r \<Rightarrow> 0 < r | None \<Rightarrow> False) \<and>
      now a < (case endsAt (a_session a) of Some e \<Rightarrow> e | None \<Rightarrow> 0))"
  unfolding isActive_def modeBlocksInput_def secondsLeft_pos by auto

lemma vote_allowed_eq:
  "vote_allowed knd a =
     (isActive a \<and> cooldownLeft a = 0 \<and> roundId (a_session a) \<noteq> Some (used_round knd a))"
  unfolding isActive_eq cooldownLeft_zero vote_allowed_def
  by (cases "roundId (a_session a)") auto

lemma sendVote_eq:
  "sendVote ty pw knd a t_push t_ts db =
     (if vote_allowed knd a
      then (mark_used knd (num_or (roundId (a_session a)) 0) (a\<lparr>lastActionTs := t_ts\<rparr>),
            db_push_vote (num_or (roundId (a_session a)) 0)
              \<lparr>vtype = Some ty, vpower = Some pw, kind = knd, role = a_role a,
               deviceId = a_deviceId a, ts = t_push\<rparr> db)
      else (a, db))"
  unfolding vote_allowed_eq
  by (cases knd) (simp_all add: sendVote_def mark_used_def Let_def)

lemma push_changes_store: "db_push_vote r v db \<noteq> db"
proof
  assume "db_push_vote r v db = db"
  then have "writes (db_push_vote r v db) = writes db" by simp
  then show False by (simp add: db_push_vote_def)
qed

text \<open>
  Claim C4. \<open>sendVote\<close> changes the store exactly when the director mode is normal, the
  session is active with a positive round id, \<open>endsAt\<close> is later than the device's clock,
  the device's marker for the kind is not this round, and 2000 ms have passed since its
  last vote; the write is then one push under the round. After an accepted normal vote a
  second normal vote in the same round is rejected at any later time, while the ability
  vote is written once the cooldown has passed, the round still runs and the ability
  was not used in it.
\<close>

theorem vote_written_only_when_allowed:
  "(snd (sendVote ty pw knd a t_push t_ts db) \<noteq> db) = vote_allowed knd a \<and>
   (vote_allowed knd a \<longrightarrow>
      (case roundId (a_session a) of
         Some r \<Rightarrow>
           snd (sendVote ty pw knd a t_push t_ts db) =
             db_push_vote r \<lparr>vtype = Some ty, vpower = Some pw, kind = knd, role = a_role a,
                             deviceId = a_deviceId a, ts = t_push\<rparr> db
       | None \<Rightarrow> False)) \<and>
   (vote_allowed NormalVote a \<longrightarrow>
      (let a1 = (fst (voteNormal ty a t_push t_ts db))\<lparr>now := later\<rparr>;
           db1 = snd (voteNormal ty a t_push t_ts db)
       in voteNormal ty' a1 u_push u_ts db1 = (a1, db1) \<and>
          (2000 \<le> later - t_ts \<and>
           later < (case endsAt (a_session a) of Some e \<Rightarrow> e | None \<Rightarrow> 0) \<and>
           roundId (a_session a) \<noteq> Some (abilityUsedRound a) \<longrightarrow>
             (case roundId (a_session a) of
                Some r \<Rightarrow>
                  snd (useAbility a1 u_push u_ts db1) =
                    db_push_vote r \<lparr>vtype = Some (ability_type (a_role a)), vpower = Some 3,
                                    kind = AbilityVote, role = a_role a,
                                    deviceId = a_deviceId a, ts = u_push\<rparr> db1
              | None \<Rightarrow> False))))"
proof -
  have one: "(snd (sendVote ty pw knd a t_push t_ts db) \<noteq> db) = vote_allowed knd a"
    by (simp add: sendVote_eq push_changes_store)
  have two: "vote_allowed knd a \<longrightarrow>
      (case roundId (a_session a) of
         Some r \<Rightarrow>
           snd (sendVote ty pw knd a t_push t_ts db) =
             db_push_vote r \<lparr>vtype = Some ty, vpower = Some pw, kind = knd, role = a_role a,
                             deviceId = a_deviceId a, ts = t_push\<rparr> db
       | None \<Rightarrow> False)"
    by (auto simp: sendVote_eq vote_allowed_def split: option.splits)
  have three: "vote_allowed NormalVote a \<longrightarrow>
      (let a1 = (fst (voteNormal ty a t_push t_ts db))\<lparr>now := later\<rparr>;
           db1 = snd (voteNormal ty a t_push t_ts db)
       in voteNormal ty' a1 u_push u_ts db1 = (a1, db1) \<and>
          (2000 \<le> later - t_ts \<and>
           later < (case endsAt (a_session a) of Some e \<Rightarrow> e | None \<Rightarrow> 0) \<and>
           roundId (a_session a) \<noteq> Some (abilityUsedRound a) \<longrightarrow>
             (case roundId (a_session a) of
                Some r \<Rightarrow>
                  snd (useAbility a1 u_push u_ts db1) =
                    db_push_vote r \<lparr>vtype = Some (ability_type (a_role a)), vpower = Some 3,
                                    kind = AbilityVote, role = a_role a,
                                    deviceId = a_deviceId a, ts = u_push\<rparr> db1
              | None \<Rightarrow> False)))"
  proof
    assume ok: "vote_allowed NormalVote a"
    then obtain r where r: "roundId (a_session a) = Some r" "0 < r"
      by (auto simp: vote_allowed_def split: option.splits)
    show "let a1 = (fst (voteNormal ty a t_push t_ts db))\<lparr>now := later\<rparr>;
           db1 = snd (voteNormal ty a t_push t_ts db)
       in voteNormal ty' a1 u_push u_ts db1 = (a1, db1) \<and>
          (2000 \<le> later - t_ts \<and>
           later < (case endsAt (a_session a) of Some e \<Rightarrow> e | None \<Rightarrow> 0) \<and>
           roundId (a_session a) \<noteq> Some (abilityUsedRound a) \<longrightarrow>
             (case roundId (a_session a) of
                Some r \<Rightarrow>
                  snd (useAbility a1 u_push u_ts db1) =
                    db_push_vote r \<lparr>vtype = Some (ability_type (a_role a)), vpower = Some 3,
                                    kind = AbilityVote, role = a_role a,
                                    deviceId = a_deviceId a, ts = u_push\<rparr> db1
              | None \<Rightarrow> False))"
      using ok r
      by (cases "a_role a")
         (simp_all add: Let_def voteNormal_def useAbility_def sendVote_eq vote_allowed_def mark_used_def)
  qed
  show ?thesis using one two three by blast
qed

theorem vote_written_only_when_allowed_witness:
  "votes (snd (voteNormal ''glitch'' example_audience 5001 5002 round3_store)) 3 =
     [\<lparr>vtype = Some ''glitch'', vpower = Some 1, kind = NormalVote, role = Hacker,
       deviceId = ''dev_7'', ts = 5001\<rparr>] \<and>
   snd (voteNormal ''stable''
          ((fst (voteNormal ''glitch'' example_audience 5001 5002 round3_store))\<lparr>now := 8000\<rparr>)
          8001 8002 (snd (voteNormal ''glitch'' example_audience 5001 5002 round3_store))) =
     snd (voteNormal ''glitch'' example_audience 5001 5002 round3_store) \<and>
   votes (snd (useAbility
          ((fst (voteNormal ''glitch'' example_audience 5001 5002 round3_store))\<lparr>now := 8000\<rparr>)
          8001 8002 (snd (voteNormal ''glitch'' example_audience 5001 5002 round3_store)))) 3 =
     [\<lparr>vtype = Some ''glitch'', vpower = Some 1, kind = NormalVote, role = Hacker,
       deviceId = ''dev_7'', ts = 5001\<rparr>,
      \<lparr>vtype = Some ''override'', vpower = Some 3, kind = AbilityVote, role = Hacker,
       deviceId = ''dev_7'', ts = 8001\<rparr>]"
proof -
  have ok: "vote_allowed NormalVote example_audience"
    by (simp add: vote_allowed_def example_audience_def)
  have side: "2000 \<le> 8000 - (5002::int) \<and>
      8000 < (case endsAt (a_session example_audience) of Some e \<Rightarrow> e | None \<Rightarrow> 0) \<and>
      roundId (a_session example_audience) \<noteq> Some (abilityUsedRound example_audience)"
    by (simp add: example_audience_def)
  have r: "roundId (a_session example_audience) = Some 3"
    by (simp add: example_audience_def)
  note inst = vote_written_only_when_allowed
      [where a = example_audience and db = round3_store and knd = NormalVote and pw = 1
         and ty = "''glitch''" and ty' = "''stable''" and t_push = 5001 and t_ts = 5002
         and later = 8000 and u_push = 8001 and u_ts = 8002]
  have first: "snd (voteNormal ''glitch'' example_audience 5001 5002 round3_store) =
      db_push_vote 3 \<lparr>vtype = Some ''glitch'', vpower = Some 1, kind = NormalVote,
                      role = a_role example_audience, deviceId = a_deviceId example_audience,
                      ts = 5001\<rparr> round3_store"
    using inst ok r by (simp add: voteNormal_def)
  have second: "voteNormal ''stable''
          ((fst (voteNormal ''glitch'' example_audience 5001 5002 round3_store))\<lparr>now := 8000\<rparr>)
          8001 8002 (snd (voteNormal ''glitch'' example_audience 5001 5002 round3_store)) =
       ((fst (voteNormal ''glitch'' example_audience 5001 5002 round3_store))\<lparr>now := 8000\<rparr>,
        snd (voteNormal ''glitch'' example_audience 5001 5002 round3_store))"
    using inst ok by (simp add: Let_def)
  have third: "snd (useAbility
          ((fst (voteNormal ''glitch'' example_audience 5001 5002 round3_store))\<lparr>now := 8000\<rparr>)
          8001 8002 (snd (voteNormal ''glitch'' example_audience 5001 5002 round3_store))) =
       db_push_vote 3 \<lparr>vtype = Some (ability_type (a_role example_audience)), vpower = Some 3,
                       kind = AbilityVote, role = a_role example_audience,
                       deviceId = a_deviceId example_audience, ts = 8001\<rparr>
         (snd (voteNormal ''glitch'' example_audience 5001 5002 round3_store))"
    using inst ok side r by (simp add: Let_def)
  show ?thesis
    unfolding third second snd_conv unfolding first
    by (simp add: db_push_vote_def round3_store_def example_audience_def)
qed

end
